theory Spec2Isabelle
  imports Complex_Main
begin

section \<open>Shared vocabulary\<close>

text \<open>
  The string unions \<open>TreeState\<close> and \<open>GestureType\<close> of the TypeScript sources.  The
  constructors carry a prefix because \<open>open\<close> is already a constant of the library.
  JavaScript numbers are read as real numbers (no rounding, no NaN, no infinities),
  with one exception: the counter of the ribbon search loop is computed in IEEE double
  arithmetic, because the number of rounds of that loop depends on the rounding.
\<close>

datatype TreeState = T_tree | T_galaxy | T_focus

datatype GestureType = G_none | G_fist | G_open | G_pinch

section \<open>Gesture classifier (useHandGesture)\<close>

text \<open>One hand landmark: an object with numeric fields \<open>x\<close>, \<open>y\<close>, \<open>z\<close>.\<close>

record Landmark =
  lm_x :: real
  lm_y :: real
  lm_z :: real

text \<open>\<open>calculateFingerDistance\<close>: \<open>Math.sqrt\<close> of the three squared differences.\<close>

definition calculateFingerDistance :: "Landmark list \<Rightarrow> nat \<Rightarrow> nat \<Rightarrow> real" where
  "calculateFingerDistance landmarks finger1 finger2 =
     (let p1 = landmarks ! finger1;
          p2 = landmarks ! finger2
      in sqrt ((lm_x p1 - lm_x p2)\<^sup>2 + (lm_y p1 - lm_y p2)\<^sup>2 + (lm_z p1 - lm_z p2)\<^sup>2))"

text \<open>
  \<open>detectGesture\<close>.  The argument is \<open>None\<close> for a null or undefined array
  (\<open>!landmarks\<close>).  Every index read happens after the length guard, so no read is out
  of range.
\<close>

definition detectGesture :: "Landmark list option \<Rightarrow> GestureType" where
  "detectGesture landmarks =
     (case landmarks of
        None \<Rightarrow> G_none
      | Some lms \<Rightarrow>
          if length lms < 21 then G_none
          else
            let pinchDist = calculateFingerDistance lms 4 8 in
            if pinchDist < 0.06 then G_pinch
            else
              let indexExtended = lm_y (lms ! 8) < lm_y (lms ! 5);
                  middleExtended = lm_y (lms ! 12) < lm_y (lms ! 9);
                  ringExtended = lm_y (lms ! 16) < lm_y (lms ! 13);
                  pinkyExtended = lm_y (lms ! 20) < lm_y (lms ! 17);
                  extendedCount =
                    length (filter (\<lambda>b. b)
                      [indexExtended, middleExtended, ringExtended, pinkyExtended])
              in if extendedCount \<ge> 3 then G_open
                 else if extendedCount \<le> 1 then G_fist
                 else G_none)"

text \<open>
  The classifier as the specification words it, for comparison with the source: the four
  non-thumb fingers with their tip and proximal-joint landmark numbers, the set of
  extended fingers, and the three-way decision on its size.
\<close>

datatype Finger = Index | Middle | Ring | Pinky

fun tip_of :: "Finger \<Rightarrow> nat" where
  "tip_of Index = 8"
| "tip_of Middle = 12"
| "tip_of Ring = 16"
| "tip_of Pinky = 20"

fun joint_of :: "Finger \<Rightarrow> nat" where
  "joint_of Index = 5"
| "joint_of Middle = 9"
| "joint_of Ring = 13"
| "joint_of Pinky = 17"

definition spec_extended :: "Landmark list \<Rightarrow> Finger \<Rightarrow> bool" where
  "spec_extended lms f = (lm_y (lms ! tip_of f) < lm_y (lms ! joint_of f))"

definition spec_extended_count :: "Landmark list \<Rightarrow> nat" where
  "spec_extended_count lms = card {f \<in> {Index, Middle, Ring, Pinky}. spec_extended lms f}"

definition spec_shape :: "nat \<Rightarrow> GestureType" where
  "spec_shape n = (if n \<ge> 3 then G_open else if n \<le> 1 then G_fist else G_none)"

section \<open>Hand input source (useHandGesture, processResults)\<close>

record HandGestureState =
  gesture :: GestureType
  handPosition :: "(real \<times> real) option"
  pinchDistance :: real
  isTracking :: bool

text \<open>
  The hook's mutable parts: the React state \<open>state\<close> and the ref \<open>lastGestureRef\<close>.
\<close>

record HandHook =
  hook_state :: HandGestureState
  lastGestureRef :: GestureType

definition initial_HandHook :: HandHook where
  "initial_HandHook =
     \<lparr> hook_state = \<lparr> gesture = G_none, handPosition = None, pinchDistance = 1,
                      isTracking = False \<rparr>,
       lastGestureRef = G_none \<rparr>"

datatype js_error = TypeError

text \<open>
  \<open>processResults\<close>.  \<open>results\<close> is the detector's \<open>landmarks\<close> field (\<open>None\<close> when it
  is missing), a list of hands.  The function is a closure of the effect: the
  \<open>state.isTracking\<close> it tests in the no-hand branch is the value of the render in which
  the effect was started, passed here as \<open>closure_isTracking\<close>; the functional update
  \<open>setState(prev => ...)\<close> acts on the current state.

  The result is the updated hook, the calls made to \<open>onGestureChange\<close> in order, and the
  exception that ends the call, if any: reading \<open>.x\<close> of \<open>landmarks[0]\<close> or
  \<open>landmarks[9]\<close> throws when the hand has fewer than ten points, after the register was
  written and the callback made, and before \<open>setState\<close>.
\<close>

definition processResults ::
  "bool \<Rightarrow> HandHook \<Rightarrow> Landmark list list option
     \<Rightarrow> HandHook \<times> GestureType list \<times> js_error option" where
  "processResults closure_isTracking hk results =
     (case results of
        Some (landmarks # others) \<Rightarrow>
          let detectedGesture = detectGesture (Some landmarks);
              changed = (detectedGesture \<noteq> lastGestureRef hk);
              hk1 = (if changed then hk\<lparr>lastGestureRef := detectedGesture\<rparr> else hk);
              calls = (if changed then [detectedGesture] else [])
          in if length landmarks < 10 then (hk1, calls, Some TypeError)
             else
               let palmBase = landmarks ! 0;
                   middleFingerMcp = landmarks ! 9;
                   centerX = (lm_x palmBase + lm_x middleFingerMcp) / 2;
                   centerY = (lm_y palmBase + lm_y middleFingerMcp) / 2;
                   pinchDist = calculateFingerDistance landmarks 4 8
               in (hk1\<lparr>hook_state :=
                         \<lparr> gesture = detectedGesture,
                           handPosition = Some (1 - centerX, centerY),
                           pinchDistance = pinchDist,
                           isTracking = True \<rparr>\<rparr>,
                   calls, None)
      | _ \<Rightarrow>
          if closure_isTracking
          then (hk\<lparr>hook_state := (hook_state hk)\<lparr>isTracking := False, gesture := G_none\<rparr>\<rparr>,
                [], None)
          else (hk, [], None))"

text \<open>
  The detection loop over a sequence of frames that each show a hand: the hook is
  threaded through, the callback calls are collected in order.  The loop stops at a
  frame that throws, as the animation-frame callback is then not scheduled again.
\<close>

fun feed :: "bool \<Rightarrow> HandHook \<Rightarrow> Landmark list list option list \<Rightarrow> HandHook \<times> GestureType list" where
  "feed c hk [] = (hk, [])"
| "feed c hk (r # rs) =
     (case processResults c hk r of
        (hk1, calls, Some e) \<Rightarrow> (hk1, calls)
      | (hk1, calls, None) \<Rightarrow>
          (case feed c hk1 rs of (hk2, calls2) \<Rightarrow> (hk2, calls @ calls2)))"

section \<open>Application state (Index)\<close>

text \<open>
  The three pieces of React state of the page that the gesture handler reads or writes.
  \<open>focusedPhotoIndex\<close> is \<open>number | null\<close>.
\<close>

record AppState =
  treeState :: TreeState
  photos :: "string list"
  focusedPhotoIndex :: "int option"

text \<open>\<open>photoCount\<close> of the pinch branch: the number of photos, or 12 when there are none.\<close>

definition photoCount :: "string list \<Rightarrow> nat" where
  "photoCount currentPhotos = (if length currentPhotos > 0 then length currentPhotos else 12)"

text \<open>
  \<open>handleGestureChange\<close>.  \<open>rnd\<close> is the value \<open>Math.random()\<close> returns in the pinch
  branch, a number in \<open>[0, 1)\<close>.
\<close>

definition handleGestureChange :: "real \<Rightarrow> AppState \<Rightarrow> GestureType \<Rightarrow> AppState" where
  "handleGestureChange rnd app g =
     (let currentTreeState = treeState app;
          currentPhotos = photos app
      in case g of
           G_fist \<Rightarrow> app\<lparr>treeState := T_tree, focusedPhotoIndex := None\<rparr>
         | G_open \<Rightarrow> app\<lparr>treeState := T_galaxy, focusedPhotoIndex := None\<rparr>
         | G_pinch \<Rightarrow>
             if currentTreeState = T_galaxy then
               let randomIndex = \<lfloor>rnd * real (min (photoCount currentPhotos) 12)\<rfloor>
               in app\<lparr>focusedPhotoIndex := Some randomIndex, treeState := T_focus\<rparr>
             else if currentTreeState = T_focus then
               app\<lparr>focusedPhotoIndex := None, treeState := T_galaxy\<rparr>
             else app
         | G_none \<Rightarrow> app)"

text \<open>
  The transition table as the specification prints it, for comparison with the handler:
  the next state and whether the selection is cleared, set or kept.  A set selection is
  measured against the photo list itself: an index below the number of photos and below
  12, or, for an empty list, an index below 12.
\<close>

datatype Selection = Cleared | Chosen | Kept

fun canonical_table :: "TreeState \<Rightarrow> GestureType \<Rightarrow> TreeState \<times> Selection" where
  "canonical_table s G_fist = (T_tree, Cleared)"
| "canonical_table s G_open = (T_galaxy, Cleared)"
| "canonical_table T_galaxy G_pinch = (T_focus, Chosen)"
| "canonical_table T_focus G_pinch = (T_galaxy, Cleared)"
| "canonical_table T_tree G_pinch = (T_tree, Kept)"
| "canonical_table s G_none = (s, Kept)"

definition selection_ok :: "AppState \<Rightarrow> AppState \<Rightarrow> Selection \<Rightarrow> bool" where
  "selection_ok app app' sel =
     (case sel of
        Cleared \<Rightarrow> focusedPhotoIndex app' = None
      | Kept \<Rightarrow> focusedPhotoIndex app' = focusedPhotoIndex app
      | Chosen \<Rightarrow>
          (case focusedPhotoIndex app' of
             None \<Rightarrow> False
           | Some i \<Rightarrow>
               0 \<le> i \<and>
               i < (if photos app = [] then 12 else int (min (length (photos app)) 12))))"

section \<open>Pointer input source (useMouseFallback)\<close>

record MouseEvent =
  button :: nat
  buttons :: nat
  clientX :: real
  clientY :: real


text \<open>
  The state and refs of the hook that the mouse-down and touch handlers read or write.
  \<open>lastClickRef\<close> holds a \<open>Date.now()\<close> value in milliseconds, or 0; the two touch
  refs are \<open>null\<close> (\<open>None\<close>) or hold a value; \<open>rotationRef\<close> is the pair \<open>(x, y)\<close>.
\<close>

record MouseFallback =
  isDragging :: bool
  simulatedGesture :: GestureType
  lastClickRef :: int
  dragStartRef :: "real \<times> real"
  rotationRef :: "real \<times> real"
  isPinchingRef :: bool
  lastTouchRef :: "(real \<times> real) option"
  initialPinchDistRef :: "real option"

definition initial_MouseFallback :: MouseFallback where
  "initial_MouseFallback =
     \<lparr> isDragging = False, simulatedGesture = G_none, lastClickRef = 0,
       dragStartRef = (0, 0), rotationRef = (0, 0), isPinchingRef = False,
       lastTouchRef = None, initialPinchDistRef = None \<rparr>"

text \<open>The calls the hook makes on its callback props.\<close>

datatype PointerCall =
    StateChange TreeState
  | GestureChange GestureType
  | OrbitChange "real \<times> real"

text \<open>
  \<open>handleMouseDown\<close>, with \<open>now\<close> the value of \<open>Date.now()\<close> and \<open>currentState\<close> the
  prop of the render that created the callback.
\<close>

definition handleMouseDown ::
  "bool \<Rightarrow> TreeState \<Rightarrow> int \<Rightarrow> MouseEvent \<Rightarrow> MouseFallback \<Rightarrow> MouseFallback \<times> PointerCall list" where
  "handleMouseDown enabled currentState now e m =
     (if \<not> enabled then (m, [])
      else if buttons e = 3 then
        (if \<not> isPinchingRef m
         then (m\<lparr>simulatedGesture := G_pinch, isPinchingRef := True, lastClickRef := 0\<rparr>,
               [GestureChange G_pinch])
         else (m\<lparr>lastClickRef := 0\<rparr>, []))
      else
        let timeSinceLastClick = now - lastClickRef m in
        if button e = 0 \<and> timeSinceLastClick < 300 then
          (m\<lparr>lastClickRef := 0\<rparr>,
           [if currentState \<noteq> T_focus
            then StateChange (if currentState = T_tree then T_galaxy else T_tree)
            else StateChange T_galaxy])
        else
          (m\<lparr>lastClickRef := now, isDragging := True,
             dragStartRef := (clientX e, clientY e), simulatedGesture := G_open\<rparr>,
           []))"







text \<open>
  The wiring in \<open>Index\<close>: \<open>onStateChange\<close> is \<open>setTreeState\<close> itself,
  \<open>onGestureChange\<close> is \<open>handleGestureChange\<close>; \<open>onOrbitChange\<close> writes the orbit
  angles, which are not part of \<open>AppState\<close>.
\<close>

fun apply_call :: "real \<Rightarrow> AppState \<Rightarrow> PointerCall \<Rightarrow> AppState" where
  "apply_call rnd app (StateChange s) = app\<lparr>treeState := s\<rparr>"
| "apply_call rnd app (GestureChange g) = handleGestureChange rnd app g"
| "apply_call rnd app (OrbitChange r) = app"

definition apply_calls :: "real \<Rightarrow> AppState \<Rightarrow> PointerCall list \<Rightarrow> AppState" where
  "apply_calls rnd app cs = foldl (apply_call rnd) app cs"






section \<open>Camera controller (Scene, CameraController)\<close>

record Vec3 =
  vx :: real
  vy :: real
  vz :: real

subsection \<open>The ribbon and the nearest-point search\<close>

text \<open>
  The three expressions of the spiral, with \<open>height = 7\<close> and \<open>maxRadius = 3.0\<close>; the
  search loop and the climb compute them with the same text.
\<close>

definition ribbonY :: "real \<Rightarrow> real" where
  "ribbonY t = t * 7 - 7 / 2 + 0.3"

definition layerRadius :: "real \<Rightarrow> real" where
  "layerRadius t = 3.0 * (1 - t * 0.88) + 0.15"

definition ribbonAngle :: "real \<Rightarrow> real" where
  "ribbonAngle t = t * pi * 6"

text \<open>The body of the search loop up to \<open>distance\<close>.\<close>

definition ribbonDistance :: "Vec3 \<Rightarrow> real \<Rightarrow> real" where
  "ribbonDistance cameraPos t =
     (let ribbonX = cos (ribbonAngle t) * layerRadius t;
          ribbonZ = sin (ribbonAngle t) * layerRadius t
      in sqrt ((vx cameraPos - ribbonX)\<^sup>2 + (vy cameraPos - ribbonY t)\<^sup>2
               + (vz cameraPos - ribbonZ)\<^sup>2))"

text \<open>\<open>distance < minDistance\<close>, where \<open>None\<close> stands for the initial \<open>Infinity\<close>.\<close>

fun below :: "real \<Rightarrow> real option \<Rightarrow> bool" where
  "below d None = True"
| "below d (Some m) = (d < m)"

text \<open>
  IEEE double arithmetic for the loop counter.  A positive real is rounded to the
  nearest number with 53 significant bits, a tie going to the even mantissa; the
  exponent range of doubles is not modelled, and a value that is not positive, which the
  counter never is after an addition, is left as it is.  The sum of two doubles is the
  rounded exact sum, and the literal \<open>0.02\<close> is the rounded decimal.
\<close>

definition round_half_even :: "real \<Rightarrow> int" where
  "round_half_even y =
     (let f = \<lfloor>y\<rfloor>
      in if y - of_int f < 1 / 2 then f
         else if 1 / 2 < y - of_int f then f + 1
         else if even f then f else f + 1)"

definition double_round :: "real \<Rightarrow> real" where
  "double_round x =
     (if 0 < x then
        (let ulp = 2 powr (of_int \<lfloor>log 2 x\<rfloor> - 52)
         in of_int (round_half_even (x / ulp)) * ulp)
      else x)"

definition double_add :: "real \<Rightarrow> real \<Rightarrow> real" where
  "double_add a b = double_round (a + b)"

text \<open>
  The \<open>for\<close> loop of \<open>findNearestRibbonT\<close>: \<open>t\<close> starts at 0, the loop runs while
  \<open>t \<le> 1\<close>, and each round adds 0.02 to \<open>t\<close> in double arithmetic.  The arithmetic of
  the body is read over the reals.
\<close>

function findNearestLoop :: "Vec3 \<Rightarrow> real \<Rightarrow> real \<Rightarrow> real option \<Rightarrow> real" where
  "findNearestLoop cameraPos t nearestT minDistance =
     (if t \<le> 1 then
        (if below (ribbonDistance cameraPos t) minDistance
         then findNearestLoop cameraPos (double_add t (double_round 0.02)) t
                (Some (ribbonDistance cameraPos t))
         else findNearestLoop cameraPos (double_add t (double_round 0.02)) nearestT minDistance)
      else nearestT)"
  by pat_completeness auto
termination
proof (relation "measure (\<lambda>(c, t, n, m). nat \<lceil>(1 - t) * 100 + 1\<rceil>)", goal_cases)
  have near: "\<bar>of_int (round_half_even y) - y\<bar> \<le> 1 / 2" for y
    unfolding round_half_even_def Let_def by (auto simp: abs_le_iff)
  have lower: "x - x / 2 ^ 53 \<le> double_round x" if "0 < x" for x
  proof -
    define ulp :: real where "ulp = 2 powr (of_int \<lfloor>log 2 x\<rfloor> - 52)"
    have pos: "0 < ulp" by (simp add: ulp_def)
    have "ulp \<le> 2 powr (log 2 x - 52)"
      unfolding ulp_def by (intro powr_mono) auto
    also have "\<dots> = x / 2 ^ 52"
      using that by (simp add: powr_diff powr_realpow [of 2 52, simplified])
    finally have ulp: "ulp \<le> x / 2 ^ 52" .
    have "x / ulp - 1 / 2 \<le> of_int (round_half_even (x / ulp))"
      using near [of "x / ulp"] by linarith
    then have "(x / ulp - 1 / 2) * ulp \<le> of_int (round_half_even (x / ulp)) * ulp"
      using pos by (intro mult_right_mono) auto
    moreover have "(x / ulp - 1 / 2) * ulp = x - ulp / 2"
      using pos by (simp add: field_simps)
    moreover have "double_round x = of_int (round_half_even (x / ulp)) * ulp"
      using that by (simp add: double_round_def Let_def ulp_def)
    ultimately have "x - ulp / 2 \<le> double_round x" by simp
    with ulp show ?thesis by simp
  qed
  have step: "199 / 10000 \<le> double_round 0.02"
    using lower [of "0.02"] by simp
  have adv: "t + 1 / 100 \<le> double_add t (double_round 0.02)" if "t \<le> 1" for t
  proof (cases "0 < t + double_round 0.02")
    case True
    from lower [OF True] that step show ?thesis
      unfolding double_add_def by (simp add: field_simps)
  next
    case False
    have "double_round x = x" if "\<not> 0 < x" for x
      using that by (simp add: double_round_def)
    from this [OF False] have "double_add t (double_round 0.02) = t + double_round 0.02"
      by (simp only: double_add_def)
    with step show ?thesis by linarith
  qed
  have less: "nat \<lceil>(1 - double_add t (double_round 0.02)) * 100 + 1\<rceil> < nat \<lceil>(1 - t) * 100 + 1\<rceil>"
    if "t \<le> 1" for t
  proof -
    have "(1 - u) * 100 + 1 \<le> (1 - t) * 100" if "t + 1 / 100 \<le> u" for u :: real
      using that by simp
    from this [OF adv [OF that]]
    have "(1 - double_add t (double_round 0.02)) * 100 + 1 \<le> (1 - t) * 100" .
    then have "\<lceil>(1 - double_add t (double_round 0.02)) * 100 + 1\<rceil> \<le> \<lceil>(1 - t) * 100\<rceil>"
      by (rule ceiling_mono)
    moreover have "\<lceil>(1 - t) * 100 + 1\<rceil> = \<lceil>(1 - t) * 100\<rceil> + 1"
      by (rule ceiling_add_one)
    moreover have "0 \<le> \<lceil>(1 - t) * 100\<rceil>" using that by simp
    ultimately show ?thesis by linarith
  qed
  {
    case 1
    show ?case by simp
  }
  {
    case (2 cameraPos t nearestT minDistance)
    then show ?case using less by simp
  }
  {
    case (3 cameraPos t nearestT minDistance)
    then show ?case using less by simp
  }
qed

declare findNearestLoop.simps [simp del]

definition findNearestRibbonT :: "Vec3 \<Rightarrow> real" where
  "findNearestRibbonT cameraPos = findNearestLoop cameraPos 0 0 None"

subsection \<open>The per-frame callback\<close>

text \<open>
  The refs of the component, and the position of the camera object, which the last line
  of the callback overwrites with \<open>positionRef\<close>.
\<close>

record CameraController =
  targetRef :: Vec3
  positionRef :: Vec3
  ribbonTimeRef :: real
  prevStateRef :: TreeState
  transitionDelayRef :: real
  isAtStarRef :: bool
  hasInitializedRef :: bool
  velocityRef :: real
  targetVelocityRef :: real
  smoothZoomRef :: real
  camera_position :: Vec3

text \<open>The values at mount; \<open>prevStateRef\<close> starts as the \<open>state\<close> prop of the first render.\<close>

definition initial_CameraController :: "TreeState \<Rightarrow> CameraController" where
  "initial_CameraController st =
     \<lparr> targetRef = \<lparr>vx = 0, vy = 0, vz = 0\<rparr>,
       positionRef = \<lparr>vx = 0, vy = 2, vz = 12\<rparr>,
       ribbonTimeRef = 0,
       prevStateRef = st,
       transitionDelayRef = 0,
       isAtStarRef = False,
       hasInitializedRef = False,
       velocityRef = 0,
       targetVelocityRef = 0.15,
       smoothZoomRef = 0,
       camera_position = \<lparr>vx = 0, vy = 2, vz = 12\<rparr> \<rparr>"

text \<open>The props of one render together with the frame's \<open>delta\<close>.\<close>

record FrameInput =
  fi_state :: TreeState
  fi_orbitRotation :: "real \<times> real"
  fi_handPosition :: "(real \<times> real) option"
  fi_zoom :: real
  fi_delta :: real

record Targets =
  targetX :: real
  targetY :: real
  targetZ :: real
  lookAtY :: real

text \<open>Line 84: the zoom is eased towards the prop.\<close>

definition smoothZoomStep :: "real \<Rightarrow> real \<Rightarrow> CameraController \<Rightarrow> CameraController" where
  "smoothZoomStep zoom delta s =
     s\<lparr>smoothZoomRef := smoothZoomRef s + (zoom - smoothZoomRef s) * 5 * delta\<rparr>"

text \<open>
  Lines 87 to 96: the change into \<open>tree\<close>.  The second component lists the calls of
  \<open>onStarFocused\<close>.
\<close>

definition detectTreeEntry :: "TreeState \<Rightarrow> CameraController \<Rightarrow> CameraController \<times> bool list" where
  "detectTreeEntry st s =
     (if st = T_tree \<and> prevStateRef s \<noteq> T_tree then
        (let nearestT = findNearestRibbonT (camera_position s)
         in (s\<lparr>transitionDelayRef := 2.0,
               ribbonTimeRef := nearestT,
               isAtStarRef := False,
               velocityRef := 0.05,
               hasInitializedRef := True\<rparr>, [False]))
      else (s, []))"

text \<open>Lines 98 to 102: the change out of \<open>tree\<close>, then the state is remembered.\<close>

definition detectTreeExit :: "TreeState \<Rightarrow> CameraController \<Rightarrow> CameraController \<times> bool list" where
  "detectTreeExit st s =
     (let (s1, calls) =
            (if st \<noteq> T_tree \<and> prevStateRef s = T_tree
             then (s\<lparr>isAtStarRef := False\<rparr>, [False])
             else (s, []))
      in (s1\<lparr>prevStateRef := st\<rparr>, calls))"

text \<open>Lines 104 to 106.\<close>

definition delayCountdown :: "real \<Rightarrow> CameraController \<Rightarrow> CameraController" where
  "delayCountdown delta s =
     (if transitionDelayRef s > 0
      then s\<lparr>transitionDelayRef := transitionDelayRef s - delta\<rparr>
      else s)"

text \<open>Lines 111 and 112.\<close>

definition baseDistance :: "TreeState \<Rightarrow> CameraController \<Rightarrow> real" where
  "baseDistance st s =
     max 4 (min 35 ((if st = T_tree then 12 else 18) + smoothZoomRef s))"

text \<open>Lines 121 to 153: one step of the climb.\<close>

definition climb :: "real \<Rightarrow> CameraController \<Rightarrow> CameraController \<times> bool list \<times> Targets" where
  "climb delta s =
     (let t = ribbonTimeRef s;
          easeFactor = sin (t * pi);
          baseVelocity = 0.05;
          maxVelocity = 0.12;
          s1 = s\<lparr>targetVelocityRef := baseVelocity + easeFactor * (maxVelocity - baseVelocity)\<rparr>;
          acceleration = 2.5;
          s2 = s1\<lparr>velocityRef :=
                    velocityRef s1 + (targetVelocityRef s1 - velocityRef s1) * acceleration * delta\<rparr>;
          s3 = s2\<lparr>ribbonTimeRef := ribbonTimeRef s2 + velocityRef s2 * delta\<rparr>;
          (s4, calls) =
            (if ribbonTimeRef s3 \<ge> 1
             then (s3\<lparr>isAtStarRef := True, ribbonTimeRef := 1\<rparr>, [True])
             else (s3, []));
          tClamped = min (ribbonTimeRef s4) 1;
          cameraDistance = (5 + layerRadius tClamped * 1.5) + (smoothZoomRef s4 * 0.5);
          cameraAngle = ribbonAngle tClamped + pi * 0.3
      in (s4, calls,
          \<lparr> targetX = cos cameraAngle * cameraDistance,
            targetY = ribbonY tClamped + 1.5,
            targetZ = sin cameraAngle * cameraDistance,
            lookAtY = ribbonY tClamped \<rparr>))"

text \<open>Lines 114 to 173: the targets of the frame, by mode.\<close>

definition chooseTargets ::
  "FrameInput \<Rightarrow> CameraController \<Rightarrow> CameraController \<times> bool list \<times> Targets" where
  "chooseTargets fi s =
     (let st = fi_state fi;
          bd = baseDistance st s
      in if st = T_tree \<and> transitionDelayRef s \<le> 0 then
           (if \<not> isAtStarRef s then climb (fi_delta fi) s
            else
              (let starY = 4.4
               in (s, [],
                   \<lparr> targetX = 0, targetY = starY + 1, targetZ = 6 + smoothZoomRef s,
                     lookAtY = starY \<rparr>)))
         else
           (case fi_handPosition fi of
              Some (hx, hy) \<Rightarrow>
                if st = T_galaxy then
                  (s, [],
                   \<lparr> targetX = (hx - 0.5) * 20,
                     targetY = (0.5 - hy) * 10 + 2,
                     targetZ = cos (snd (fi_orbitRotation fi)) * bd,
                     lookAtY = 0 \<rparr>)
                else
                  (s, [],
                   \<lparr> targetX = sin (snd (fi_orbitRotation fi)) * bd,
                     targetY = sin (fst (fi_orbitRotation fi)) * 5 + 2,
                     targetZ = cos (snd (fi_orbitRotation fi)) * bd,
                     lookAtY = 0 \<rparr>)
            | None \<Rightarrow>
                (s, [],
                 \<lparr> targetX = sin (snd (fi_orbitRotation fi)) * bd,
                   targetY = sin (fst (fi_orbitRotation fi)) * 5 + 2,
                   targetZ = cos (snd (fi_orbitRotation fi)) * bd,
                   lookAtY = 0 \<rparr>)))"

text \<open>Lines 177 to 185: the exponential easing and the copy into the camera.\<close>

definition smoothCamera :: "real \<Rightarrow> Targets \<Rightarrow> CameraController \<Rightarrow> CameraController" where
  "smoothCamera delta tg s =
     (let smoothFactor = 1 - exp (- 2.5 * delta);
          p = positionRef s;
          p' = \<lparr> vx = vx p + (targetX tg - vx p) * smoothFactor,
                 vy = vy p + (targetY tg - vy p) * smoothFactor,
                 vz = vz p + (targetZ tg - vz p) * smoothFactor \<rparr>;
          l = targetRef s;
          l' = l\<lparr>vy := vy l + (lookAtY tg - vy l) * smoothFactor\<rparr>
      in s\<lparr>positionRef := p', targetRef := l', camera_position := p'\<rparr>)"

text \<open>
  The callback of \<open>useFrame\<close>: the new refs and the calls of \<open>onStarFocused\<close> in order.
  The camera looks at \<open>targetRef\<close> afterwards.
\<close>

definition useFrame :: "FrameInput \<Rightarrow> CameraController \<Rightarrow> CameraController \<times> bool list" where
  "useFrame fi s =
     (let s0 = smoothZoomStep (fi_zoom fi) (fi_delta fi) s;
          (s1, calls1) = detectTreeEntry (fi_state fi) s0;
          (s2, calls2) = detectTreeExit (fi_state fi) s1;
          s3 = delayCountdown (fi_delta fi) s2;
          (s4, calls3, tg) = chooseTargets fi s3
      in (smoothCamera (fi_delta fi) tg s4, calls1 @ calls2 @ calls3))"

text \<open>A run of frames, the calls collected in order.\<close>

fun useFrames :: "FrameInput list \<Rightarrow> CameraController \<Rightarrow> CameraController \<times> bool list" where
  "useFrames [] s = (s, [])"
| "useFrames (fi # fis) s =
     (case useFrame fi s of
        (s1, calls) \<Rightarrow> (case useFrames fis s1 of (s2, calls2) \<Rightarrow> (s2, calls @ calls2)))"

section \<open>Specification-side definitions and concrete inputs\<close>

text \<open>
  The edge detector as the specification words it: an event at a sample exactly when the
  classified value differs from the register, which then holds that value.
\<close>

fun spec_edges :: "GestureType \<Rightarrow> GestureType list \<Rightarrow> GestureType list" where
  "spec_edges register [] = []"
| "spec_edges register (g # gs) = (if g \<noteq> register then [g] else []) @ spec_edges g gs"


text \<open>
  A synthetic hand of 21 landmarks: the thumb tip one unit to the side of the index tip
  and level with it, the four proximal joints at height 1, and the listed fingertips
  raised to height 0.
\<close>

definition sample_hand :: "nat list \<Rightarrow> Landmark list" where
  "sample_hand up =
     map (\<lambda>i. \<lparr> lm_x = (if i = 4 then 1 else 0),
                 lm_y = (if i \<in> set up \<or> (i = 4 \<and> 8 \<in> set up) then 0 else 1),
                 lm_z = 0 \<rparr>) [0..<21]"

definition left_press :: MouseEvent where
  "left_press = \<lparr> button = 0, buttons = 1, clientX = 100, clientY = 100 \<rparr>"



definition sample_app :: "TreeState \<Rightarrow> int option \<Rightarrow> AppState" where
  "sample_app st sel =
     \<lparr> treeState = st,
       photos = [''/Photos/1.jpg'', ''/Photos/2.jpg'', ''/Photos/3.jpg''],
       focusedPhotoIndex = sel \<rparr>"

text \<open>A frame in tree with the orbit at rest, no hand and no zoom.\<close>

definition tree_frame :: "real \<Rightarrow> FrameInput" where
  "tree_frame delta =
     \<lparr> fi_state = T_tree, fi_orbitRotation = (0, 0), fi_handPosition = None,
       fi_zoom = 0, fi_delta = delta \<rparr>"

text \<open>Line 129 alone: the velocity after the easing step of the climb.\<close>

definition climbVelocity :: "real \<Rightarrow> CameraController \<Rightarrow> real" where
  "climbVelocity delta s =
     velocityRef s + (0.05 + sin (ribbonTimeRef s * pi) * (0.12 - 0.05) - velocityRef s) * 2.5 * delta"

text \<open>The bounds a climb keeps: the previous frame was in tree, \<open>t\<close> in \<open>[0, 1]\<close>, velocity not negative.\<close>

definition climb_ok :: "CameraController \<Rightarrow> bool" where
  "climb_ok s = (prevStateRef s = T_tree \<and> 0 \<le> ribbonTimeRef s \<and> ribbonTimeRef s \<le> 1
                 \<and> 0 \<le> velocityRef s)"

text \<open>The states of the controller: the state at mount, and the state after any frame.\<close>

inductive reachable :: "CameraController \<Rightarrow> bool" where
  mount: "reachable (initial_CameraController st)"
| frame: "reachable s \<Longrightarrow> reachable (fst (useFrame fi s))"

text \<open>
  What holds after every frame: the camera sits at \<open>positionRef\<close>, and a climb that is
  due (tree seen, delay elapsed, focal point not reached) has \<open>t\<close> below 1.
\<close>

definition frame_inv :: "CameraController \<Rightarrow> bool" where
  "frame_inv s =
     (camera_position s = positionRef s
      \<and> (prevStateRef s = T_tree \<and> transitionDelayRef s \<le> 0 \<and> \<not> isAtStarRef s
           \<longrightarrow> ribbonTimeRef s < 1))"





section \<open>Application state machine\<close>

text \<open>
  C1, as stated, fails for an empty photo list when \<open>photoCount\<close> is the number of
  photos: the range \<open>[0, min(0, 12))\<close> is empty, yet a pinch in galaxy leads to focus
  with the index 6 selected when the random number is 1/2.
\<close>

theorem empty_photo_list_counterexample:
  "treeState (handleGestureChange (1/2)
       \<lparr>treeState = T_galaxy, photos = [], focusedPhotoIndex = None\<rparr> G_pinch) = T_focus
   \<and> focusedPhotoIndex (handleGestureChange (1/2)
       \<lparr>treeState = T_galaxy, photos = [], focusedPhotoIndex = None\<rparr> G_pinch) = Some 6
   \<and> \<not> (6 < int (min (length ([] :: string list)) 12))"
  by (simp add: handleGestureChange_def photoCount_def)

text \<open>
  C1, amended.  For each of the twelve pairs of a state and a gesture,
  \<open>handleGestureChange\<close> follows the canonical table: fist leads to tree and open to
  galaxy, both with the selection cleared; pinch leads from galaxy to focus with an
  index selected that lies in \<open>[0, min(n, 12))\<close> for a list of \<open>n \<ge> 1\<close> photos and in
  \<open>[0, 12)\<close> for an empty list; pinch leads from focus to galaxy with the selection
  cleared; pinch in tree and the gesture none in any state change nothing at all.  The
  photo list is never touched.  \<open>rnd\<close> is the random number drawn, in \<open>[0, 1)\<close>.
\<close>

theorem handleGestureChange_table:
  assumes "0 \<le> rnd" and "rnd < 1"
  shows "treeState (handleGestureChange rnd app g) = fst (canonical_table (treeState app) g)
       \<and> selection_ok app (handleGestureChange rnd app g) (snd (canonical_table (treeState app) g))
       \<and> photos (handleGestureChange rnd app g) = photos app
       \<and> (snd (canonical_table (treeState app) g) = Kept \<longrightarrow> handleGestureChange rnd app g = app)"
proof -
  let ?m = "min (photoCount (photos app)) 12"
  have pos: "0 < ?m" by (simp add: photoCount_def)
  have lo: "0 \<le> \<lfloor>rnd * real ?m\<rfloor>" using assms(1) by simp
  have "rnd * real ?m < real ?m" using assms(2) pos by simp
  then have "\<lfloor>rnd * real ?m\<rfloor> < int ?m" by (simp add: floor_less_iff)
  moreover have "int ?m = (if photos app = [] then 12 else int (min (length (photos app)) 12))"
    by (simp add: photoCount_def)
  ultimately have hi: "\<lfloor>rnd * real ?m\<rfloor>
                         < (if photos app = [] then 12 else int (min (length (photos app)) 12))"
    by simp
  show ?thesis
    using lo hi
    by (cases g; cases "treeState app")
       (simp_all add: handleGestureChange_def selection_ok_def)
qed

theorem handleGestureChange_table_witness:
  "treeState (handleGestureChange (1/2) (sample_app T_galaxy None) G_pinch) = T_focus
   \<and> focusedPhotoIndex (handleGestureChange (1/2) (sample_app T_galaxy None) G_pinch) = Some 1
   \<and> selection_ok \<lparr>treeState = T_galaxy, photos = [''/Photos/1.jpg''], focusedPhotoIndex = None\<rparr>
        (handleGestureChange (9/10)
           \<lparr>treeState = T_galaxy, photos = [''/Photos/1.jpg''], focusedPhotoIndex = None\<rparr> G_pinch)
        Chosen
   \<and> focusedPhotoIndex (handleGestureChange (9/10)
           \<lparr>treeState = T_galaxy, photos = [''/Photos/1.jpg''], focusedPhotoIndex = None\<rparr> G_pinch)
        = Some 0
   \<and> handleGestureChange (1/2) (sample_app T_tree (Some 2)) G_pinch = sample_app T_tree (Some 2)"
proof -
  have a: "(0::real) \<le> 1/2" and b: "(1/2::real) < 1" by simp_all
  have c: "(0::real) \<le> 9/10" and d: "(9/10::real) < 1" by simp_all
  have idx: "focusedPhotoIndex (handleGestureChange (1/2) (sample_app T_galaxy None) G_pinch) = Some 1"
    by (simp add: handleGestureChange_def sample_app_def photoCount_def)
  have one: "focusedPhotoIndex (handleGestureChange (9/10)
           \<lparr>treeState = T_galaxy, photos = [''/Photos/1.jpg''], focusedPhotoIndex = None\<rparr> G_pinch)
        = Some 0"
    by (simp add: handleGestureChange_def photoCount_def)
  from handleGestureChange_table [OF a b, of "sample_app T_galaxy None" G_pinch]
       handleGestureChange_table [OF a b, of "sample_app T_tree (Some 2)" G_pinch]
       handleGestureChange_table [OF c d,
         of "\<lparr>treeState = T_galaxy, photos = [''/Photos/1.jpg''], focusedPhotoIndex = None\<rparr>" G_pinch]
       idx one
  show ?thesis by (simp add: sample_app_def)
qed

section \<open>Gesture classifier\<close>

text \<open>
  C2.  The classifier returns none for an absent snapshot and for one with fewer than 21
  points; the model has no exception, since every index is read behind the length
  guard.  For a snapshot of at least 21 points whose landmarks 4 and 8 are less than
  0.06 apart in three dimensions, it returns pinch, whatever the other landmarks are.
\<close>

theorem detectGesture_short_or_pinch:
  "detectGesture None = G_none
   \<and> (length lms < 21 \<longrightarrow> detectGesture (Some lms) = G_none)
   \<and> (length lms \<ge> 21
        \<and> sqrt ((lm_x (lms ! 4) - lm_x (lms ! 8))\<^sup>2 + (lm_y (lms ! 4) - lm_y (lms ! 8))\<^sup>2
                + (lm_z (lms ! 4) - lm_z (lms ! 8))\<^sup>2) < 0.06
      \<longrightarrow> detectGesture (Some lms) = G_pinch)"
  by (simp add: detectGesture_def calculateFingerDistance_def Let_def)

theorem detectGesture_short_or_pinch_witness:
  "detectGesture (Some (replicate 20 \<lparr>lm_x = 0, lm_y = 0, lm_z = 0\<rparr>)) = G_none
   \<and> detectGesture (Some (replicate 21 \<lparr>lm_x = 0, lm_y = 0, lm_z = 0\<rparr>)) = G_pinch"
  using detectGesture_short_or_pinch [of "replicate 20 \<lparr>lm_x = 0, lm_y = 0, lm_z = 0\<rparr>"]
        detectGesture_short_or_pinch [of "replicate 21 \<lparr>lm_x = 0, lm_y = 0, lm_z = 0\<rparr>"]
  by simp

lemma spec_extended_count_eq:
  "spec_extended_count lms =
     length (filter (\<lambda>b. b)
       [lm_y (lms ! 8) < lm_y (lms ! 5), lm_y (lms ! 12) < lm_y (lms ! 9),
        lm_y (lms ! 16) < lm_y (lms ! 13), lm_y (lms ! 20) < lm_y (lms ! 17)])"
proof -
  have "{f \<in> {Index, Middle, Ring, Pinky}. spec_extended lms f} =
        (if spec_extended lms Index then {Index} else {})
      \<union> (if spec_extended lms Middle then {Middle} else {})
      \<union> (if spec_extended lms Ring then {Ring} else {})
      \<union> (if spec_extended lms Pinky then {Pinky} else {})"
    by auto
  then show ?thesis
    by (simp add: spec_extended_count_def spec_extended_def)
qed

text \<open>
  C3.  For a snapshot of at least 21 points whose landmarks 4 and 8 are at least 0.06
  apart, the classifier counts the fingers among index, middle, ring and pinky whose
  tip lies above the proximal joint (smaller vertical coordinate) and returns open for a
  count of three or more, fist for a count of at most one, and none for a count of two.
\<close>

theorem detectGesture_extended_count:
  assumes "length lms \<ge> 21"
    and "sqrt ((lm_x (lms ! 4) - lm_x (lms ! 8))\<^sup>2 + (lm_y (lms ! 4) - lm_y (lms ! 8))\<^sup>2
                + (lm_z (lms ! 4) - lm_z (lms ! 8))\<^sup>2) \<ge> 0.06"
  shows "detectGesture (Some lms) = spec_shape (spec_extended_count lms)"
  using assms
  by (simp add: detectGesture_def calculateFingerDistance_def spec_shape_def
      spec_extended_count_eq Let_def)

lemma sample_hand_two: "detectGesture (Some (sample_hand [8, 12])) = G_none"
  by (simp add: detectGesture_def calculateFingerDistance_def sample_hand_def Let_def)

lemma sample_hand_fist: "detectGesture (Some (sample_hand [])) = G_fist"
  by (simp add: detectGesture_def calculateFingerDistance_def sample_hand_def Let_def)

theorem detectGesture_extended_count_witness:
  "spec_extended_count (sample_hand [8, 12, 16]) = 3
   \<and> detectGesture (Some (sample_hand [8, 12, 16])) = G_open"
proof -
  let ?h = "sample_hand [8, 12, 16]"
  have len: "length ?h \<ge> 21" by (simp add: sample_hand_def)
  have far: "sqrt ((lm_x (?h ! 4) - lm_x (?h ! 8))\<^sup>2 + (lm_y (?h ! 4) - lm_y (?h ! 8))\<^sup>2
                + (lm_z (?h ! 4) - lm_z (?h ! 8))\<^sup>2) \<ge> 0.06"
    by (simp add: sample_hand_def)
  have cnt: "spec_extended_count ?h = 3"
    by (simp add: spec_extended_count_eq sample_hand_def)
  from detectGesture_extended_count [OF len far] cnt show ?thesis
    by (simp add: spec_shape_def)
qed

section \<open>Hand input source\<close>

lemma processResults_hand:
  assumes "length lm \<ge> 10"
  shows "processResults c hk (Some [lm]) =
          (hk\<lparr>lastGestureRef := detectGesture (Some lm),
              hook_state := \<lparr> gesture = detectGesture (Some lm),
                  handPosition = Some (1 - (lm_x (lm ! 0) + lm_x (lm ! 9)) / 2,
                                       (lm_y (lm ! 0) + lm_y (lm ! 9)) / 2),
                  pinchDistance = calculateFingerDistance lm 4 8,
                  isTracking = True \<rparr>\<rparr>,
           if detectGesture (Some lm) \<noteq> lastGestureRef hk then [detectGesture (Some lm)] else [],
           None)"
  using assms by (simp add: processResults_def Let_def)

lemma processResults_no_hand:
  "processResults c hk (Some []) =
     (if c then (hk\<lparr>hook_state := (hook_state hk)\<lparr>isTracking := False, gesture := G_none\<rparr>\<rparr>,
                 [], None)
      else (hk, [], None))"
  by (simp add: processResults_def)

lemma feed_hand_Cons:
  assumes "length lm \<ge> 10"
  shows "feed c hk (Some [lm] # rs) =
           (fst (feed c (fst (processResults c hk (Some [lm]))) rs),
            (if detectGesture (Some lm) \<noteq> lastGestureRef hk then [detectGesture (Some lm)] else [])
              @ snd (feed c (fst (processResults c hk (Some [lm]))) rs))"
  by (simp add: processResults_hand [OF assms] split: prod.splits)

lemma processResults_hand_register:
  assumes "length lm \<ge> 10"
  shows "lastGestureRef (fst (processResults c hk (Some [lm]))) = detectGesture (Some lm)"
  by (simp add: processResults_hand [OF assms])

lemma feed_hands:
  assumes "\<forall>lm \<in> set hands. length lm \<ge> 10"
  shows "snd (feed c hk (map (\<lambda>lm. Some [lm]) hands))
           = spec_edges (lastGestureRef hk) (map (\<lambda>lm. detectGesture (Some lm)) hands)
       \<and> lastGestureRef (fst (feed c hk (map (\<lambda>lm. Some [lm]) hands)))
           = last (lastGestureRef hk # map (\<lambda>lm. detectGesture (Some lm)) hands)"
  using assms
proof (induction hands arbitrary: hk)
  case Nil
  then show ?case by simp
next
  case (Cons lm hands)
  then have len: "length lm \<ge> 10" and rest: "\<forall>lm \<in> set hands. length lm \<ge> 10" by simp_all
  show ?case
    using Cons.IH [OF rest, of "fst (processResults c hk (Some [lm]))"]
    by (simp add: feed_hand_Cons [OF len] processResults_hand_register [OF len]
        del: feed.simps)
qed

text \<open>
  C4, as stated, fails where it says that the same gesture fed twice in a row emits
  exactly one event: from the initial register none, two frames classified none emit
  no event.
\<close>

theorem same_gesture_twice_counterexample:
  "detectGesture (Some (sample_hand [8, 12])) = G_none
   \<and> snd (feed False initial_HandHook [Some [sample_hand [8, 12]], Some [sample_hand [8, 12]]]) = []"
proof -
  have len: "length (sample_hand [8, 12]) \<ge> 10" by (simp add: sample_hand_def)
  show ?thesis
    by (simp add: sample_hand_two processResults_hand [OF len] initial_HandHook_def)
qed

text \<open>
  C4, amended.  Over every sequence of frames that show a hand (of at least ten points,
  so that the frame completes), the calls of \<open>onGestureChange\<close> are exactly the edges of
  the classified sequence against the single-slot register: a call at a sample if and
  only if its classified gesture differs from the register, which holds that gesture
  afterwards; none is an edge target like any other value.  In particular the same
  snapshot fed twice in a row emits one event when its gesture differs from the
  register before the first feed, and no event otherwise; the second feed never emits.
\<close>

theorem edge_triggered:
  assumes "\<forall>lm \<in> set hands. length lm \<ge> 10" and "length h \<ge> 10"
  shows "snd (feed c hk (map (\<lambda>lm. Some [lm]) hands))
           = spec_edges (lastGestureRef hk) (map (\<lambda>lm. detectGesture (Some lm)) hands)
       \<and> lastGestureRef (fst (feed c hk (map (\<lambda>lm. Some [lm]) hands)))
           = last (lastGestureRef hk # map (\<lambda>lm. detectGesture (Some lm)) hands)
       \<and> snd (feed c hk [Some [h], Some [h]])
           = (if detectGesture (Some h) \<noteq> lastGestureRef hk then [detectGesture (Some h)] else [])"
proof -
  have "\<forall>lm \<in> set [h, h]. length lm \<ge> 10" using assms(2) by simp
  from feed_hands [OF this, of c hk] have "snd (feed c hk [Some [h], Some [h]])
           = (if detectGesture (Some h) \<noteq> lastGestureRef hk then [detectGesture (Some h)] else [])"
    by simp
  with feed_hands [OF assms(1), of c hk] show ?thesis by simp
qed

theorem edge_triggered_witness:
  "snd (feed False initial_HandHook
          (map (\<lambda>lm. Some [lm]) [sample_hand [], sample_hand [], sample_hand [8, 12], sample_hand []]))
     = [G_fist, G_none, G_fist]
   \<and> snd (feed False initial_HandHook [Some [sample_hand []], Some [sample_hand []]]) = [G_fist]"
proof -
  have a: "\<forall>lm \<in> set [sample_hand [], sample_hand [], sample_hand [8, 12], sample_hand []]. length lm \<ge> 10"
    by (simp add: sample_hand_def)
  have b: "length (sample_hand []) \<ge> 10" by (simp add: sample_hand_def)
  show ?thesis
    using edge_triggered [OF a b, of False initial_HandHook]
    by (simp add: sample_hand_two sample_hand_fist initial_HandHook_def)
qed

text \<open>
  C5, as stated, fails: a fist frame followed by a frame without a hand emits the fist
  edge only, and the register still holds fist afterwards, even when the tracking flag that
  the loop tests is set.
\<close>

theorem hand_lost_counterexample:
  "snd (feed True initial_HandHook [Some [sample_hand []], Some []]) = [G_fist]
   \<and> lastGestureRef (fst (feed True initial_HandHook [Some [sample_hand []], Some []])) = G_fist"
proof -
  have len: "length (sample_hand []) \<ge> 10" by (simp add: sample_hand_def)
  show ?thesis
    by (simp add: sample_hand_fist processResults_hand [OF len] initial_HandHook_def
        processResults_no_hand)
qed

text \<open>
  C5, amended.  A frame without a hand calls \<open>onGestureChange\<close> not at all and leaves the
  previous-gesture register as it is; when the tracking flag that the loop tests is set,
  the published state gets \<open>isTracking\<close> false and the gesture none, the other fields
  kept.
\<close>

theorem no_hand_frame:
  assumes "results = None \<or> results = Some []"
    and "processResults c hk results = (hk', calls, err)"
  shows "calls = [] \<and> err = None \<and> lastGestureRef hk' = lastGestureRef hk
       \<and> (c \<longrightarrow> hook_state hk' = (hook_state hk)\<lparr>isTracking := False, gesture := G_none\<rparr>)"
  using assms by (auto simp: processResults_def split: if_splits)

theorem no_hand_frame_witness:
  "fst (snd (processResults True (fst (feed True initial_HandHook [Some [sample_hand []]]))
               (Some []))) = []
   \<and> isTracking (hook_state (fst (processResults True
        (fst (feed True initial_HandHook [Some [sample_hand []]])) (Some [])))) = False"
proof -
  obtain hk' calls err where
    p: "processResults True (fst (feed True initial_HandHook [Some [sample_hand []]])) (Some [])
          = (hk', calls, err)"
    by (cases "processResults True (fst (feed True initial_HandHook [Some [sample_hand []]]))
                 (Some [])") auto
  have "(Some [] :: Landmark list list option) = None
        \<or> (Some [] :: Landmark list list option) = Some []" by simp
  from no_hand_frame [OF this p] p show ?thesis by simp
qed

section \<open>Pointer input source\<close>





text \<open>
  C10.  When the double-click shortcut fires in focus, the page's state changes in the
  field \<open>treeState\<close> only, to galaxy: the focused-photo selection stays as it was,
  whereas a pinch in focus also clears it.
\<close>

theorem double_click_in_focus_keeps_selection:
  assumes "button e = 0" "buttons e \<noteq> 3" "now - lastClickRef m < 300"
    and "treeState app = T_focus"
  shows "apply_calls rnd app (snd (handleMouseDown True (treeState app) now e m))
           = app\<lparr>treeState := T_galaxy\<rparr>
       \<and> focusedPhotoIndex (apply_calls rnd app (snd (handleMouseDown True (treeState app) now e m)))
           = focusedPhotoIndex app
       \<and> handleGestureChange rnd app G_pinch = app\<lparr>focusedPhotoIndex := None, treeState := T_galaxy\<rparr>"
  using assms
  by (simp add: handleMouseDown_def Let_def apply_calls_def handleGestureChange_def)

theorem double_click_in_focus_keeps_selection_witness:
  "focusedPhotoIndex (apply_calls 0 (sample_app T_focus (Some 2))
      (snd (handleMouseDown True T_focus 5200 left_press
             (initial_MouseFallback\<lparr>lastClickRef := 5000\<rparr>)))) = Some 2
   \<and> focusedPhotoIndex (handleGestureChange 0 (sample_app T_focus (Some 2)) G_pinch) = None"
proof -
  have a: "button left_press = 0" "buttons left_press \<noteq> 3" by (simp_all add: left_press_def)
  have b: "5200 - lastClickRef (initial_MouseFallback\<lparr>lastClickRef := 5000\<rparr>) < 300" by simp
  have c: "treeState (sample_app T_focus (Some 2)) = T_focus" by (simp add: sample_app_def)
  from double_click_in_focus_keeps_selection [OF a b c, of 0]
  show ?thesis by (simp add: sample_app_def)
qed

section \<open>Camera controller: climb and degenerate frames\<close>

lemma eased_velocity_nonneg:
  fixes v tv d :: real
  assumes "0 \<le> v" "0 \<le> tv" "0 \<le> d" "d \<le> 0.4"
  shows "0 \<le> v + (tv - v) * 2.5 * d"
proof -
  have "v + (tv - v) * 2.5 * d = v * (1 - 2.5 * d) + tv * (2.5 * d)"
    by (simp add: field_simps)
  moreover have "0 \<le> v * (1 - 2.5 * d)" using assms by (intro mult_nonneg_nonneg) auto
  moreover have "0 \<le> tv * (2.5 * d)" using assms by (intro mult_nonneg_nonneg) auto
  ultimately show ?thesis by simp
qed

lemma target_velocity_pos:
  assumes "0 \<le> t" "t \<le> 1"
  shows "(0::real) \<le> 0.05 + sin (t * pi) * (0.12 - 0.05)"
proof -
  have "0 \<le> sin (t * pi)"
    using assms by (intro sin_ge_zero) (auto simp: mult_left_le_one_le mult.commute)
  then show ?thesis by simp
qed

lemma climb_refs:
  "fst (climb delta s) =
     (let v = climbVelocity delta s; t = ribbonTimeRef s + v * delta
      in s\<lparr>targetVelocityRef := 0.05 + sin (ribbonTimeRef s * pi) * (0.12 - 0.05),
           velocityRef := v,
           ribbonTimeRef := (if 1 \<le> t then 1 else t),
           isAtStarRef := (1 \<le> t \<or> isAtStarRef s)\<rparr>)"
  "fst (snd (climb delta s)) =
     (if 1 \<le> ribbonTimeRef s + climbVelocity delta s * delta then [True] else [])"
  by (simp_all add: climb_def climbVelocity_def Let_def split: prod.splits)

lemma smoothCamera_refs [simp]:
  "ribbonTimeRef (smoothCamera d tg s) = ribbonTimeRef s"
  "velocityRef (smoothCamera d tg s) = velocityRef s"
  "isAtStarRef (smoothCamera d tg s) = isAtStarRef s"
  "prevStateRef (smoothCamera d tg s) = prevStateRef s"
  "transitionDelayRef (smoothCamera d tg s) = transitionDelayRef s"
  "smoothZoomRef (smoothCamera d tg s) = smoothZoomRef s"
  "targetVelocityRef (smoothCamera d tg s) = targetVelocityRef s"
  "hasInitializedRef (smoothCamera d tg s) = hasInitializedRef s"
  "camera_position (smoothCamera d tg s) = positionRef (smoothCamera d tg s)"
  by (simp_all add: smoothCamera_def Let_def)

lemma prevStateRef_update_same: "prevStateRef s = st \<Longrightarrow> s\<lparr>prevStateRef := st\<rparr> = s"
  by auto

lemma detectTreeEntry_same: "prevStateRef s = st \<Longrightarrow> detectTreeEntry st s = (s, [])"
  by (auto simp: detectTreeEntry_def)

lemma detectTreeExit_same: "prevStateRef s = st \<Longrightarrow> detectTreeExit st s = (s, [])"
  by (auto simp: detectTreeExit_def prevStateRef_update_same)

text \<open>A frame whose state is the one the previous frame saw.\<close>

lemma useFrame_same_state:
  assumes "fi_state fi = prevStateRef s"
  shows "useFrame fi s =
    (let s3 = delayCountdown (fi_delta fi) (smoothZoomStep (fi_zoom fi) (fi_delta fi) s);
         r = chooseTargets fi s3
     in (smoothCamera (fi_delta fi) (snd (snd r)) (fst r), fst (snd r)))"
proof -
  have p: "prevStateRef (smoothZoomStep (fi_zoom fi) (fi_delta fi) s) = fi_state fi"
    using assms by (simp add: smoothZoomStep_def)
  show ?thesis
    by (simp add: useFrame_def detectTreeEntry_same [OF p] detectTreeExit_same [OF p] Let_def
        split: prod.splits)
qed

lemma pre_refs [simp]:
  "ribbonTimeRef (delayCountdown d s) = ribbonTimeRef s"
  "velocityRef (delayCountdown d s) = velocityRef s"
  "isAtStarRef (delayCountdown d s) = isAtStarRef s"
  "prevStateRef (delayCountdown d s) = prevStateRef s"
  "ribbonTimeRef (smoothZoomStep z d s) = ribbonTimeRef s"
  "velocityRef (smoothZoomStep z d s) = velocityRef s"
  "isAtStarRef (smoothZoomStep z d s) = isAtStarRef s"
  "prevStateRef (smoothZoomStep z d s) = prevStateRef s"
  "transitionDelayRef (smoothZoomStep z d s) = transitionDelayRef s"
  by (simp_all add: delayCountdown_def smoothZoomStep_def)

lemma chooseTargets_tree:
  assumes "fi_state fi = T_tree"
  shows "fst (chooseTargets fi s) =
           (if transitionDelayRef s \<le> 0 \<and> \<not> isAtStarRef s then fst (climb (fi_delta fi) s) else s)"
    and "fst (snd (chooseTargets fi s)) =
           (if transitionDelayRef s \<le> 0 \<and> \<not> isAtStarRef s then fst (snd (climb (fi_delta fi) s)) else [])"
  using assms by (simp_all add: chooseTargets_def Let_def split: option.splits prod.splits)

lemma useFrame_climb_step:
  assumes tree: "fi_state fi = T_tree"
    and dt: "0 \<le> fi_delta fi" "fi_delta fi \<le> 0.4"
    and ok: "climb_ok s"
  shows "climb_ok (fst (useFrame fi s))
       \<and> ribbonTimeRef s \<le> ribbonTimeRef (fst (useFrame fi s))
       \<and> (isAtStarRef s \<longrightarrow> isAtStarRef (fst (useFrame fi s)))
       \<and> (isAtStarRef (fst (useFrame fi s)) \<and> \<not> isAtStarRef s \<longrightarrow> ribbonTimeRef (fst (useFrame fi s)) = 1)
       \<and> snd (useFrame fi s) = (if isAtStarRef (fst (useFrame fi s)) \<and> \<not> isAtStarRef s then [True] else [])"
proof -
  let ?s3 = "delayCountdown (fi_delta fi) (smoothZoomStep (fi_zoom fi) (fi_delta fi) s)"
  let ?v = "climbVelocity (fi_delta fi) ?s3"
  from ok have prev: "prevStateRef s = T_tree" and t0: "0 \<le> ribbonTimeRef s" and t1: "ribbonTimeRef s \<le> 1"
    and v0: "0 \<le> velocityRef s" by (simp_all add: climb_ok_def)
  have v: "0 \<le> ?v"
    unfolding climbVelocity_def
    using eased_velocity_nonneg [OF _ target_velocity_pos [OF t0 t1] dt, of "velocityRef s"] v0
    by simp
  then have adv: "0 \<le> ?v * fi_delta fi" using dt(1) by simp
  show ?thesis
    using v adv t0 t1 v0 prev
    by (simp add: useFrame_same_state tree Let_def chooseTargets_tree [OF tree] climb_refs
        climb_ok_def)
qed

lemma useFrames_Cons:
  "useFrames (fi # fis) s =
     (fst (useFrames fis (fst (useFrame fi s))),
      snd (useFrame fi s) @ snd (useFrames fis (fst (useFrame fi s))))"
  by (simp split: prod.splits)

lemma useFrames_climb:
  assumes "\<forall>fi \<in> set fis. fi_state fi = T_tree \<and> 0 \<le> fi_delta fi \<and> fi_delta fi \<le> 0.4"
    and "climb_ok s"
  shows "climb_ok (fst (useFrames fis s))
       \<and> ribbonTimeRef s \<le> ribbonTimeRef (fst (useFrames fis s))
       \<and> (isAtStarRef s \<longrightarrow> isAtStarRef (fst (useFrames fis s)))
       \<and> (isAtStarRef (fst (useFrames fis s)) \<and> \<not> isAtStarRef s
            \<longrightarrow> ribbonTimeRef (fst (useFrames fis s)) = 1)
       \<and> snd (useFrames fis s)
            = (if isAtStarRef (fst (useFrames fis s)) \<and> \<not> isAtStarRef s then [True] else [])"
  using assms
proof (induction fis arbitrary: s)
  case Nil
  then show ?case by simp
next
  case (Cons fi fis)
  let ?s1 = "fst (useFrame fi s)"
  from Cons.prems have fi: "fi_state fi = T_tree" "0 \<le> fi_delta fi" "fi_delta fi \<le> 0.4"
    and rest: "\<forall>fi \<in> set fis. fi_state fi = T_tree \<and> 0 \<le> fi_delta fi \<and> fi_delta fi \<le> 0.4"
    by simp_all
  note one = useFrame_climb_step [OF fi Cons.prems(2)]
  then have ok1: "climb_ok ?s1" by simp
  note more = Cons.IH [OF rest ok1]
  let ?s2 = "fst (useFrames fis ?s1)"
  have fst_eq: "fst (useFrames (fi # fis) s) = ?s2"
    and snd_eq: "snd (useFrames (fi # fis) s) = snd (useFrame fi s) @ snd (useFrames fis ?s1)"
    by (simp_all add: useFrames_Cons del: useFrames.simps)
  from more have ok2: "climb_ok ?s2" by simp
  from one more have mono: "ribbonTimeRef s \<le> ribbonTimeRef ?s2" by linarith
  from one more have star: "isAtStarRef s \<longrightarrow> isAtStarRef ?s2" by blast
  have top: "isAtStarRef ?s2 \<and> \<not> isAtStarRef s \<longrightarrow> ribbonTimeRef ?s2 = 1"
  proof (cases "isAtStarRef ?s1")
    case True
    with one have "isAtStarRef s \<or> ribbonTimeRef ?s1 = 1" by blast
    moreover from more have "ribbonTimeRef ?s1 \<le> ribbonTimeRef ?s2" by simp
    moreover from ok2 have "ribbonTimeRef ?s2 \<le> 1" by (simp add: climb_ok_def)
    ultimately show ?thesis by auto
  next
    case False
    with more show ?thesis by blast
  qed
  have calls: "snd (useFrame fi s) @ snd (useFrames fis ?s1)
                 = (if isAtStarRef ?s2 \<and> \<not> isAtStarRef s then [True] else [])"
  proof (cases "isAtStarRef ?s1")
    case True
    with more have "isAtStarRef ?s2" and "snd (useFrames fis ?s1) = []" by simp_all
    with one True show ?thesis by simp
  next
    case False
    with one have "\<not> isAtStarRef s" and "snd (useFrame fi s) = []" by auto
    with more False show ?thesis by simp
  qed
  show ?case
    unfolding fst_eq snd_eq using ok2 mono star top calls by blast
qed

lemma tree_frame_climbs:
  assumes "prevStateRef s = T_tree" "transitionDelayRef s \<le> 0" "\<not> isAtStarRef s"
  shows "velocityRef (fst (useFrame (tree_frame d) s)) = climbVelocity d s"
    and "ribbonTimeRef (fst (useFrame (tree_frame d) s)) =
           (if 1 \<le> ribbonTimeRef s + climbVelocity d s * d then 1
            else ribbonTimeRef s + climbVelocity d s * d)"
    and "prevStateRef (fst (useFrame (tree_frame d) s)) = T_tree"
    and "transitionDelayRef (fst (useFrame (tree_frame d) s)) = transitionDelayRef s"
    and "isAtStarRef (fst (useFrame (tree_frame d) s)) = (1 \<le> ribbonTimeRef s + climbVelocity d s * d)"
proof -
  have st: "fi_state (tree_frame d) = prevStateRef s" "fi_state (tree_frame d) = T_tree"
    "fi_delta (tree_frame d) = d"
    using assms(1) by (simp_all add: tree_frame_def)
  have dc: "delayCountdown d (smoothZoomStep (fi_zoom (tree_frame d)) d s)
              = smoothZoomStep (fi_zoom (tree_frame d)) d s"
    using assms(2) by (simp add: delayCountdown_def)
  have cv: "climbVelocity d (smoothZoomStep (fi_zoom (tree_frame d)) d s) = climbVelocity d s"
    by (simp add: climbVelocity_def)
  show "velocityRef (fst (useFrame (tree_frame d) s)) = climbVelocity d s"
    and "ribbonTimeRef (fst (useFrame (tree_frame d) s)) =
           (if 1 \<le> ribbonTimeRef s + climbVelocity d s * d then 1
            else ribbonTimeRef s + climbVelocity d s * d)"
    and "prevStateRef (fst (useFrame (tree_frame d) s)) = T_tree"
    and "transitionDelayRef (fst (useFrame (tree_frame d) s)) = transitionDelayRef s"
    and "isAtStarRef (fst (useFrame (tree_frame d) s)) = (1 \<le> ribbonTimeRef s + climbVelocity d s * d)"
    using assms
    by (simp_all add: useFrame_same_state [OF st(1)] st(2,3) dc cv Let_def
        chooseTargets_tree [OF st(2)] climb_refs)
qed

text \<open>
  C7, as stated, fails for long frames: from the state at mount in tree, a frame of 2 s
  takes \<open>t\<close> to 1/2 with velocity 1/4, and a following frame of 1 s makes the velocity
  negative (-3/40) and takes \<open>t\<close> back to 17/40.
\<close>

theorem long_frames_counterexample:
  "ribbonTimeRef (fst (useFrames [tree_frame 2] (initial_CameraController T_tree))) = 1/2
   \<and> ribbonTimeRef (fst (useFrames [tree_frame 2, tree_frame 1] (initial_CameraController T_tree))) = 17/40
   \<and> velocityRef (fst (useFrames [tree_frame 2, tree_frame 1] (initial_CameraController T_tree))) = - 3/40"
proof -
  let ?s0 = "initial_CameraController T_tree"
  let ?s1 = "fst (useFrame (tree_frame 2) ?s0)"
  have s0: "prevStateRef ?s0 = T_tree" "transitionDelayRef ?s0 \<le> 0" "\<not> isAtStarRef ?s0"
    by (simp_all add: initial_CameraController_def)
  have cv0: "climbVelocity 2 ?s0 = 1/4"
    by (simp add: climbVelocity_def initial_CameraController_def)
  have t0: "ribbonTimeRef ?s0 = 0" by (simp add: initial_CameraController_def)
  have t1: "ribbonTimeRef ?s1 = 1/2" and v1: "velocityRef ?s1 = 1/4"
    by (simp_all add: tree_frame_climbs [OF s0] cv0 t0)
  have s1: "prevStateRef ?s1 = T_tree" "transitionDelayRef ?s1 \<le> 0" "\<not> isAtStarRef ?s1"
    using s0(2) by (simp_all add: tree_frame_climbs [OF s0] cv0 t0)
  have "sin (1 / 2 * pi) = 1" by simp
  then have cv1: "climbVelocity 1 ?s1 = - 3/40"
    by (simp add: climbVelocity_def t1 v1)
  have "ribbonTimeRef (fst (useFrame (tree_frame 1) ?s1)) = 17/40
      \<and> velocityRef (fst (useFrame (tree_frame 1) ?s1)) = - 3/40"
    by (simp add: tree_frame_climbs [OF s1] cv1 t1)
  then show ?thesis using t1 by (simp add: useFrames_Cons del: useFrames.simps(2))
qed


lemma useFrame_refs:
  "fst (useFrame fi s) =
     (let s3 = delayCountdown (fi_delta fi)
                 (fst (detectTreeExit (fi_state fi)
                   (fst (detectTreeEntry (fi_state fi)
                     (smoothZoomStep (fi_zoom fi) (fi_delta fi) s)))));
          r = chooseTargets fi s3
      in smoothCamera (fi_delta fi) (snd (snd r)) (fst r))"
  by (simp add: useFrame_def Let_def split: prod.splits)

lemma prevStateRef_detectTreeExit [simp]: "prevStateRef (fst (detectTreeExit st s)) = st"
  by (simp add: detectTreeExit_def Let_def split: prod.splits)

lemma chooseTargets_refs:
  "fst (chooseTargets fi s) =
     (if fi_state fi = T_tree \<and> transitionDelayRef s \<le> 0 \<and> \<not> isAtStarRef s
      then fst (climb (fi_delta fi) s) else s)"
  "fst (snd (chooseTargets fi s)) =
     (if fi_state fi = T_tree \<and> transitionDelayRef s \<le> 0 \<and> \<not> isAtStarRef s
      then fst (snd (climb (fi_delta fi) s)) else [])"
  by (simp_all add: chooseTargets_def Let_def split: option.splits prod.splits)

lemma eased_velocity_lower:
  fixes v tv d :: real
  assumes "0 \<le> v" "0.05 \<le> tv" "0 \<le> d" "d \<le> 0.4"
  shows "0.125 * d \<le> v + (tv - v) * 2.5 * d"
proof -
  have eq: "v + (tv - v) * 2.5 * d - 0.125 * d = v * (1 - 2.5 * d) + (tv - 0.05) * (2.5 * d)"
    by (simp add: field_simps)
  have "0 \<le> v * (1 - 2.5 * d)" using assms by (intro mult_nonneg_nonneg) auto
  moreover have "0 \<le> (tv - 0.05) * (2.5 * d)" using assms by (intro mult_nonneg_nonneg) auto
  ultimately have "0 \<le> v + (tv - v) * 2.5 * d - 0.125 * d"
    unfolding eq by (rule add_nonneg_nonneg)
  then show ?thesis by linarith
qed

lemma target_velocity_lower:
  assumes "0 \<le> t" "t \<le> 1"
  shows "(0.05::real) \<le> 0.05 + sin (t * pi) * (0.12 - 0.05)"
proof -
  have "0 \<le> sin (t * pi)"
    using assms by (intro sin_ge_zero) (auto simp: mult_left_le_one_le mult.commute)
  then show ?thesis by simp
qed

lemma useFrame_climb_progress:
  assumes tree: "fi_state fi = T_tree"
    and dt: "0 < d" "d \<le> fi_delta fi" "fi_delta fi \<le> 0.4"
    and ok: "climb_ok s"
    and due: "transitionDelayRef s \<le> 0" "\<not> isAtStarRef s"
  shows "isAtStarRef (fst (useFrame fi s))
       \<or> (ribbonTimeRef s + d\<^sup>2 / 8 \<le> ribbonTimeRef (fst (useFrame fi s))
          \<and> ribbonTimeRef (fst (useFrame fi s)) < 1
          \<and> transitionDelayRef (fst (useFrame fi s)) \<le> 0)"
proof -
  let ?s3 = "delayCountdown (fi_delta fi) (smoothZoomStep (fi_zoom fi) (fi_delta fi) s)"
  let ?v = "climbVelocity (fi_delta fi) ?s3"
  from ok have prev: "prevStateRef s = T_tree" and t0: "0 \<le> ribbonTimeRef s" and t1: "ribbonTimeRef s \<le> 1"
    and v0: "0 \<le> velocityRef s" by (simp_all add: climb_ok_def)
  have d0: "0 \<le> fi_delta fi" using dt by simp
  have s3: "transitionDelayRef ?s3 = transitionDelayRef s"
    using due(1) by (simp add: delayCountdown_def)
  have "0.125 * fi_delta fi \<le> ?v"
    unfolding climbVelocity_def
    using eased_velocity_lower [OF _ target_velocity_lower [OF t0 t1] d0 dt(3), of "velocityRef s"] v0
    by simp
  then have "0.125 * d \<le> ?v" using dt by simp
  then have "(0.125 * d) * d \<le> ?v * fi_delta fi"
    using dt by (intro mult_mono) auto
  then have adv: "d\<^sup>2 / 8 \<le> ?v * fi_delta fi" by (simp add: power2_eq_square)
  show ?thesis
    using adv due s3 prev
    by (simp add: useFrame_same_state tree Let_def chooseTargets_tree [OF tree] climb_refs)
qed

lemma prevStateRef_useFrame: "prevStateRef (fst (useFrame fi s)) = fi_state fi"
  by (simp add: useFrame_refs Let_def chooseTargets_refs climb_refs)

lemma useFrame_clamp_only:
  assumes tree: "fi_state fi = T_tree" and prev: "prevStateRef s = T_tree"
    and inv: "isAtStarRef s \<or> ribbonTimeRef s < 1"
  shows "isAtStarRef (fst (useFrame fi s)) \<or> ribbonTimeRef (fst (useFrame fi s)) < 1"
  using inv
  by (auto simp: useFrame_same_state tree prev Let_def chooseTargets_tree [OF tree] climb_refs)

lemma useFrames_clamp_only:
  assumes "\<forall>fi \<in> set fis. fi_state fi = T_tree"
    and "prevStateRef s = T_tree" and "isAtStarRef s \<or> ribbonTimeRef s < 1"
  shows "isAtStarRef (fst (useFrames fis s)) \<or> ribbonTimeRef (fst (useFrames fis s)) < 1"
  using assms
proof (induction fis arbitrary: s)
  case Nil
  then show ?case by simp
next
  case (Cons fi fis)
  let ?s1 = "fst (useFrame fi s)"
  from Cons.prems have tree: "fi_state fi = T_tree" and rest: "\<forall>fi \<in> set fis. fi_state fi = T_tree"
    by simp_all
  have p1: "prevStateRef ?s1 = T_tree"
    by (simp add: prevStateRef_useFrame tree)
  from Cons.IH [OF rest p1 useFrame_clamp_only [OF tree Cons.prems(2,3)]]
  show ?case by (simp add: useFrames_Cons del: useFrames.simps)
qed

lemma useFrames_progress:
  assumes "\<forall>fi \<in> set fis. fi_state fi = T_tree \<and> d \<le> fi_delta fi \<and> fi_delta fi \<le> 0.4"
    and "0 < d" and "climb_ok s" and "transitionDelayRef s \<le> 0" and "fis \<noteq> []"
  shows "isAtStarRef (fst (useFrames fis s))
       \<or> (ribbonTimeRef s + real (length fis) * (d\<^sup>2 / 8) \<le> ribbonTimeRef (fst (useFrames fis s))
          \<and> ribbonTimeRef (fst (useFrames fis s)) < 1)"
  using assms
proof (induction fis arbitrary: s)
  case Nil
  then show ?case by simp
next
  case (Cons fi fis)
  let ?s1 = "fst (useFrame fi s)"
  from Cons.prems have fi: "fi_state fi = T_tree" "d \<le> fi_delta fi" "fi_delta fi \<le> 0.4"
    and rest: "\<forall>fi \<in> set fis. fi_state fi = T_tree \<and> d \<le> fi_delta fi \<and> fi_delta fi \<le> 0.4"
    by simp_all
  have fi0: "0 \<le> fi_delta fi" using fi(2) Cons.prems(2) by simp
  have rest0: "\<forall>fi \<in> set fis. fi_state fi = T_tree \<and> 0 \<le> fi_delta fi \<and> fi_delta fi \<le> 0.4"
    using rest Cons.prems(2) by fastforce
  note step = useFrame_climb_step [OF fi(1) fi0 fi(3) Cons.prems(3)]
  then have ok1: "climb_ok ?s1" by simp
  have fst_eq: "fst (useFrames (fi # fis) s) = fst (useFrames fis ?s1)"
    by (simp add: useFrames_Cons del: useFrames.simps)
  show ?case
  proof (cases "isAtStarRef ?s1")
    case True
    with useFrames_climb [OF rest0 ok1] show ?thesis unfolding fst_eq by simp
  next
    case False
    with step have ns: "\<not> isAtStarRef s" by blast
    from useFrame_climb_progress [OF fi(1) Cons.prems(2) fi(2,3) Cons.prems(3,4) ns] False
    have adv: "ribbonTimeRef s + d\<^sup>2 / 8 \<le> ribbonTimeRef ?s1" and lt: "ribbonTimeRef ?s1 < 1"
      and due1: "transitionDelayRef ?s1 \<le> 0" by simp_all
    show ?thesis
    proof (cases "fis = []")
      case True
      then show ?thesis unfolding fst_eq using adv lt by simp
    next
      case nonempty: False
      have len: "real (length (fi # fis)) * (d\<^sup>2 / 8) = d\<^sup>2 / 8 + real (length fis) * (d\<^sup>2 / 8)"
        by (simp add: algebra_simps)
      from Cons.IH [OF rest Cons.prems(2) ok1 due1 nonempty]
      show ?thesis
      proof
        assume "isAtStarRef (fst (useFrames fis ?s1))"
        then show ?thesis unfolding fst_eq by simp
      next
        assume "ribbonTimeRef ?s1 + real (length fis) * (d\<^sup>2 / 8)
                  \<le> ribbonTimeRef (fst (useFrames fis ?s1))
                \<and> ribbonTimeRef (fst (useFrames fis ?s1)) < 1"
        with adv show ?thesis unfolding fst_eq len by linarith
      qed
    qed
  qed
qed

text \<open>
  C7, amended.  Over any run of frames in tree with \<open>0 \<le> \<Delta>t \<le> 0.4\<close> (so that
  \<open>2.5 \<Delta>t \<le> 1\<close>), from a state that last saw tree with \<open>t\<close> in \<open>[0, 1]\<close> and a velocity
  that is not negative: \<open>t\<close> does not decrease and stays at most 1, the velocity stays
  non-negative (so the bounds hold again for any further run); \<open>t\<close> reaches 1 only by
  the clamp, so a run that starts below 1 and ends at 1 has the focal point marked
  reached, and a run that newly marks it ends at exactly 1; \<open>onStarFocused(true)\<close> is
  called once in a run that reaches the focal point and not at all otherwise.  The
  climb does arrive: when the delay has elapsed, the focal point is not yet reached and
  every frame has \<open>\<Delta>t \<ge> d > 0\<close>, every run of at least \<open>8 / d\<^sup>2\<close> frames ends with the
  focal point reached, \<open>t = 1\<close>, and exactly the one call \<open>onStarFocused(true)\<close>.
\<close>

theorem climb_monotone:
  assumes "\<forall>fi \<in> set fis. fi_state fi = T_tree \<and> 0 \<le> fi_delta fi \<and> fi_delta fi \<le> 0.4"
    and "prevStateRef s = T_tree"
    and "0 \<le> ribbonTimeRef s" and "ribbonTimeRef s \<le> 1" and "0 \<le> velocityRef s"
  shows "ribbonTimeRef s \<le> ribbonTimeRef (fst (useFrames fis s))
       \<and> ribbonTimeRef (fst (useFrames fis s)) \<le> 1
       \<and> 0 \<le> velocityRef (fst (useFrames fis s))
       \<and> prevStateRef (fst (useFrames fis s)) = T_tree
       \<and> (isAtStarRef (fst (useFrames fis s)) \<and> \<not> isAtStarRef s
            \<longrightarrow> ribbonTimeRef (fst (useFrames fis s)) = 1)
       \<and> (ribbonTimeRef s < 1 \<and> ribbonTimeRef (fst (useFrames fis s)) = 1
            \<longrightarrow> isAtStarRef (fst (useFrames fis s)))
       \<and> snd (useFrames fis s)
            = (if isAtStarRef (fst (useFrames fis s)) \<and> \<not> isAtStarRef s then [True] else [])
       \<and> (0 < d \<and> (\<forall>fi \<in> set fis. d \<le> fi_delta fi) \<and> transitionDelayRef s \<le> 0
            \<and> \<not> isAtStarRef s \<and> 8 \<le> real (length fis) * d\<^sup>2
            \<longrightarrow> isAtStarRef (fst (useFrames fis s))
                \<and> ribbonTimeRef (fst (useFrames fis s)) = 1
                \<and> snd (useFrames fis s) = [True])"
proof -
  let ?s' = "fst (useFrames fis s)"
  have ok: "climb_ok s" using assms(2-5) by (simp add: climb_ok_def)
  note safe = useFrames_climb [OF assms(1) ok]
  have trees: "\<forall>fi \<in> set fis. fi_state fi = T_tree" using assms(1) by blast
  have clamp: "ribbonTimeRef s < 1 \<and> ribbonTimeRef ?s' = 1 \<longrightarrow> isAtStarRef ?s'"
    using useFrames_clamp_only [OF trees assms(2), of] by fastforce
  have live: "isAtStarRef ?s'"
    if d: "0 < d" "\<forall>fi \<in> set fis. d \<le> fi_delta fi" and due: "transitionDelayRef s \<le> 0"
      and n: "8 \<le> real (length fis) * d\<^sup>2"
  proof (rule ccontr)
    assume not: "\<not> isAtStarRef ?s'"
    from n d(1) have ne: "fis \<noteq> []" by auto
    have fr: "\<forall>fi \<in> set fis. fi_state fi = T_tree \<and> d \<le> fi_delta fi \<and> fi_delta fi \<le> 0.4"
      using assms(1) d(2) by blast
    from useFrames_progress [OF fr d(1) ok due ne] not
    have "ribbonTimeRef s + real (length fis) * (d\<^sup>2 / 8) \<le> ribbonTimeRef ?s'"
      and "ribbonTimeRef ?s' < 1" by simp_all
    moreover have "1 \<le> real (length fis) * (d\<^sup>2 / 8)" using n by simp
    ultimately show False using assms(3) by linarith
  qed
  show ?thesis
  proof (intro conjI)
    show "0 < d \<and> (\<forall>fi \<in> set fis. d \<le> fi_delta fi) \<and> transitionDelayRef s \<le> 0
            \<and> \<not> isAtStarRef s \<and> 8 \<le> real (length fis) * d\<^sup>2
            \<longrightarrow> isAtStarRef ?s' \<and> ribbonTimeRef ?s' = 1 \<and> snd (useFrames fis s) = [True]"
      using live safe by auto
  qed (use safe clamp in \<open>simp_all add: climb_ok_def\<close>)
qed

theorem climb_monotone_witness:
  "ribbonTimeRef (initial_CameraController T_tree)
     \<le> ribbonTimeRef (fst (useFrames (replicate 50 (tree_frame 0.4)) (initial_CameraController T_tree)))
   \<and> 0 \<le> velocityRef (fst (useFrames (replicate 50 (tree_frame 0.4)) (initial_CameraController T_tree)))
   \<and> isAtStarRef (fst (useFrames (replicate 50 (tree_frame 0.4)) (initial_CameraController T_tree)))
   \<and> ribbonTimeRef (fst (useFrames (replicate 50 (tree_frame 0.4)) (initial_CameraController T_tree))) = 1
   \<and> snd (useFrames (replicate 50 (tree_frame 0.4)) (initial_CameraController T_tree)) = [True]"
proof -
  let ?fis = "replicate 50 (tree_frame 0.4)"
  have a: "\<forall>fi \<in> set ?fis. fi_state fi = T_tree \<and> 0 \<le> fi_delta fi \<and> fi_delta fi \<le> 0.4"
    by (simp add: tree_frame_def)
  have b: "prevStateRef (initial_CameraController T_tree) = T_tree"
    "0 \<le> ribbonTimeRef (initial_CameraController T_tree)"
    "ribbonTimeRef (initial_CameraController T_tree) \<le> 1"
    "0 \<le> velocityRef (initial_CameraController T_tree)"
    by (simp_all add: initial_CameraController_def)
  have c: "(0::real) < 0.4 \<and> (\<forall>fi \<in> set ?fis. 0.4 \<le> fi_delta fi)
        \<and> transitionDelayRef (initial_CameraController T_tree) \<le> 0
        \<and> \<not> isAtStarRef (initial_CameraController T_tree)
        \<and> 8 \<le> real (length ?fis) * 0.4\<^sup>2"
    by (simp add: tree_frame_def initial_CameraController_def power2_eq_square)
  from climb_monotone [OF a b, where d = "0.4"] c show ?thesis by blast
qed

lemma delayCountdown_refs [simp]:
  "camera_position (delayCountdown d s) = camera_position s"
  "positionRef (delayCountdown d s) = positionRef s"
  by (simp_all add: delayCountdown_def)

lemma frame_inv_useFrame: "frame_inv (fst (useFrame fi s))"
proof -
  define s3 where "s3 = delayCountdown (fi_delta fi)
                 (fst (detectTreeExit (fi_state fi)
                   (fst (detectTreeEntry (fi_state fi)
                     (smoothZoomStep (fi_zoom fi) (fi_delta fi) s)))))"
  have p: "prevStateRef s3 = fi_state fi" by (simp add: s3_def)
  have eq: "fst (useFrame fi s) = smoothCamera (fi_delta fi) (snd (snd (chooseTargets fi s3)))
              (fst (chooseTargets fi s3))"
    by (simp add: useFrame_refs Let_def s3_def)
  show ?thesis
  proof (cases "fi_state fi = T_tree \<and> transitionDelayRef s3 \<le> 0 \<and> \<not> isAtStarRef s3")
    case True
    then have "fst (chooseTargets fi s3) = fst (climb (fi_delta fi) s3)"
      by (simp add: chooseTargets_refs)
    then show ?thesis
      by (simp add: eq frame_inv_def climb_refs Let_def)
  next
    case False
    then have "fst (chooseTargets fi s3) = s3"
      by (auto simp: chooseTargets_refs)
    then show ?thesis
      using False p by (auto simp: eq frame_inv_def)
  qed
qed

lemma reachable_frame_inv: "reachable s \<Longrightarrow> frame_inv s"
  by (induction rule: reachable.induct)
     (simp_all add: frame_inv_useFrame, simp add: frame_inv_def initial_CameraController_def)

lemma smoothCamera_zero:
  "camera_position s = positionRef s \<Longrightarrow> smoothCamera 0 tg s = s"
  by (cases s) (simp add: smoothCamera_def Let_def)

text \<open>
  C8, amended.  In every state the controller can be in, a frame with \<open>\<Delta>t = 0\<close> whose
  application state is the one the previous frame saw leaves the controller as it is
  (positions, look-at target, \<open>t\<close>, velocity, delay, reached flag, smoothed zoom, camera),
  except for the scratch ref \<open>targetVelocityRef\<close> that a climb frame recomputes, and calls
  \<open>onStarFocused\<close> not at all.
\<close>

theorem zero_delta_frame:
  assumes "reachable s" and "fi_delta fi = 0" and "fi_state fi = prevStateRef s"
  shows "fst (useFrame fi s) = s\<lparr>targetVelocityRef := targetVelocityRef (fst (useFrame fi s))\<rparr>
       \<and> snd (useFrame fi s) = []"
proof -
  from reachable_frame_inv [OF assms(1)]
  have cam: "camera_position s = positionRef s"
    and top: "prevStateRef s = T_tree \<and> transitionDelayRef s \<le> 0 \<and> \<not> isAtStarRef s
           \<longrightarrow> ribbonTimeRef s < 1"
    by (simp_all add: frame_inv_def)
  have z: "smoothZoomStep (fi_zoom fi) 0 s = s" by (simp add: smoothZoomStep_def)
  have d: "delayCountdown 0 s = s" by (simp add: delayCountdown_def)
  have eq: "useFrame fi s = (smoothCamera 0 (snd (snd (chooseTargets fi s))) (fst (chooseTargets fi s)),
                            fst (snd (chooseTargets fi s)))"
    by (simp add: useFrame_same_state [OF assms(3)] assms(2) z d Let_def)
  show ?thesis
  proof (cases "fi_state fi = T_tree \<and> transitionDelayRef s \<le> 0 \<and> \<not> isAtStarRef s")
    case True
    with top assms(3) have lt: "ribbonTimeRef s < 1" by simp
    let ?c = "s\<lparr>targetVelocityRef := 0.05 + sin (ribbonTimeRef s * pi) * (0.12 - 0.05)\<rparr>"
    have c: "fst (climb 0 s) = ?c" and e: "fst (snd (climb 0 s)) = []"
      using lt by (simp_all add: climb_refs climbVelocity_def Let_def)
    from True have ct: "fst (chooseTargets fi s) = ?c" and ce: "fst (snd (chooseTargets fi s)) = []"
      by (simp_all add: chooseTargets_refs assms(2) c e)
    have "camera_position ?c = positionRef ?c" using cam by simp
    from smoothCamera_zero [OF this] show ?thesis
      by (simp add: eq ct ce)
  next
    case False
    then have ct: "fst (chooseTargets fi s) = s" and ce: "fst (snd (chooseTargets fi s)) = []"
      by (auto simp: chooseTargets_refs)
    show ?thesis
      by (simp add: eq ct ce smoothCamera_zero [OF cam])
  qed
qed

theorem zero_delta_frame_witness:
  "fst (useFrame (tree_frame 0) (initial_CameraController T_tree))
     = (initial_CameraController T_tree)\<lparr>targetVelocityRef := 0.05\<rparr>
   \<and> snd (useFrame (tree_frame 0) (initial_CameraController T_tree)) = []"
proof -
  have a: "fi_delta (tree_frame 0) = 0" by (simp add: tree_frame_def)
  have b: "fi_state (tree_frame 0) = prevStateRef (initial_CameraController T_tree)"
    by (simp add: tree_frame_def initial_CameraController_def)
  have c: "targetVelocityRef (fst (useFrame (tree_frame 0) (initial_CameraController T_tree))) = 0.05"
    by (simp add: useFrame_same_state [OF b] a Let_def chooseTargets_refs climb_refs
        delayCountdown_def smoothZoomStep_def)
       (simp add: initial_CameraController_def tree_frame_def)
  from zero_delta_frame [OF reachable.mount a b] c show ?thesis by simp
qed

text \<open>
  C8, as stated, fails twice.  With \<open>\<Delta>t = -1\<close> the first frame after mount in tree
  moves \<open>t\<close> from 0 to 1/8 and the velocity from 0 to -1/8.  With \<open>\<Delta>t = 0\<close> a frame that
  enters tree from galaxy arms the delay (0 to 2), resets the velocity (0 to 0.05) and
  calls \<open>onStarFocused(false)\<close>.
\<close>

theorem zero_or_negative_delta_counterexample:
  "ribbonTimeRef (fst (useFrame (tree_frame (- 1)) (initial_CameraController T_tree))) = 1/8
   \<and> velocityRef (fst (useFrame (tree_frame (- 1)) (initial_CameraController T_tree))) = - 1/8
   \<and> ribbonTimeRef (initial_CameraController T_tree) = 0
   \<and> velocityRef (initial_CameraController T_tree) = 0
   \<and> transitionDelayRef (fst (useFrame (tree_frame 0) (initial_CameraController T_galaxy))) = 2
   \<and> velocityRef (fst (useFrame (tree_frame 0) (initial_CameraController T_galaxy))) = 0.05
   \<and> snd (useFrame (tree_frame 0) (initial_CameraController T_galaxy)) = [False]
   \<and> transitionDelayRef (initial_CameraController T_galaxy) = 0"
proof -
  let ?s0 = "initial_CameraController T_tree"
  have s0: "prevStateRef ?s0 = T_tree" "transitionDelayRef ?s0 \<le> 0" "\<not> isAtStarRef ?s0"
    by (simp_all add: initial_CameraController_def)
  have cv: "climbVelocity (- 1) ?s0 = - 1/8"
    by (simp add: climbVelocity_def initial_CameraController_def)
  have t0: "ribbonTimeRef ?s0 = 0" "velocityRef ?s0 = 0"
    by (simp_all add: initial_CameraController_def)
  have neg: "ribbonTimeRef (fst (useFrame (tree_frame (- 1)) ?s0)) = 1/8
           \<and> velocityRef (fst (useFrame (tree_frame (- 1)) ?s0)) = - 1/8"
    by (simp add: tree_frame_climbs [OF s0] cv t0)
  let ?g = "initial_CameraController T_galaxy"
  have entry: "detectTreeEntry T_tree (smoothZoomStep 0 0 ?g)
                 = ((smoothZoomStep 0 0 ?g)\<lparr>transitionDelayRef := 2.0,
                       ribbonTimeRef := findNearestRibbonT (camera_position ?g),
                       isAtStarRef := False, velocityRef := 0.05, hasInitializedRef := True\<rparr>, [False])"
    by (simp add: detectTreeEntry_def smoothZoomStep_def initial_CameraController_def)
  have zero: "transitionDelayRef (fst (useFrame (tree_frame 0) ?g)) = 2
           \<and> velocityRef (fst (useFrame (tree_frame 0) ?g)) = 0.05
           \<and> snd (useFrame (tree_frame 0) ?g) = [False]"
    by (simp add: useFrame_def tree_frame_def entry detectTreeExit_def delayCountdown_def
        chooseTargets_def Let_def split: prod.splits)
  show ?thesis using neg zero t0 by (simp add: initial_CameraController_def)
qed

section \<open>Camera controller: entering tree\<close>

subsection \<open>The values of the loop counter\<close>



























































subsection \<open>The search loop\<close>



subsection \<open>Distances on the ribbon\<close>














subsection \<open>The frame that enters tree\<close>







end
